theory Spec2Isabelle
  imports Complex_Main "HOL-Library.Sublist"
begin

section \<open>JavaScript numbers\<close>

text \<open>
  The fields of a tyre and every intermediate quantity of \<^verbatim>\<open>src/app/page.tsx\<close> have the
  TypeScript type \<^verbatim>\<open>number\<close>. A finite number is modelled by the rational it denotes and
  arithmetic on finite numbers is exact: the rounding of IEEE doubles, overflow to
  \<^verbatim>\<open>Infinity\<close> and the sign of zero are not modelled. The three values that are not
  finite are modelled, because the code can produce them (a division by zero in
  \<^verbatim>\<open>pctDiff\<close>, \<^verbatim>\<open>Number\<close> of a string that is no numeral) and tests for them
  (\<^verbatim>\<open>Number.isFinite\<close>).
\<close>

datatype number = Fin rat | PosInf | NegInf | NaN

fun isFinite :: "number \<Rightarrow> bool" where
  "isFinite (Fin x) = True"
| "isFinite _ = False"

text \<open>The sign of a number that is not \<^verbatim>\<open>NaN\<close>, with zero counted as positive zero.\<close>

fun sign_of :: "number \<Rightarrow> int" where
  "sign_of (Fin x) = (if x < 0 then - 1 else if x = 0 then 0 else 1)"
| "sign_of PosInf = 1"
| "sign_of NegInf = - 1"
| "sign_of NaN = 0"

fun n_neg :: "number \<Rightarrow> number" where
  "n_neg (Fin x) = Fin (- x)"
| "n_neg PosInf = NegInf"
| "n_neg NegInf = PosInf"
| "n_neg NaN = NaN"

text \<open>\<^verbatim>\<open>a + b\<close>\<close>

fun n_add :: "number \<Rightarrow> number \<Rightarrow> number" where
  "n_add (Fin a) (Fin b) = Fin (a + b)"
| "n_add NaN b = NaN"
| "n_add a NaN = NaN"
| "n_add PosInf NegInf = NaN"
| "n_add NegInf PosInf = NaN"
| "n_add PosInf b = PosInf"
| "n_add NegInf b = NegInf"
| "n_add (Fin a) b = b"

text \<open>\<^verbatim>\<open>a - b\<close>\<close>

definition n_sub :: "number \<Rightarrow> number \<Rightarrow> number" where
  "n_sub a b = n_add a (n_neg b)"

text \<open>\<^verbatim>\<open>a * b\<close>: an infinity times zero is \<^verbatim>\<open>NaN\<close>.\<close>

fun n_mul :: "number \<Rightarrow> number \<Rightarrow> number" where
  "n_mul (Fin a) (Fin b) = Fin (a * b)"
| "n_mul NaN b = NaN"
| "n_mul a NaN = NaN"
| "n_mul a b =
     (if sign_of a * sign_of b = 0 then NaN
      else if sign_of a * sign_of b > 0 then PosInf else NegInf)"

text \<open>
  \<^verbatim>\<open>a / b\<close>: a finite number over zero is an infinity with the sign of the numerator
  (\<^verbatim>\<open>NaN\<close> for zero over zero), a finite number over an infinity is zero.
\<close>

fun n_div :: "number \<Rightarrow> number \<Rightarrow> number" where
  "n_div (Fin a) (Fin b) =
     (if b = 0 then (if a = 0 then NaN else if a > 0 then PosInf else NegInf)
      else Fin (a / b))"
| "n_div NaN b = NaN"
| "n_div a NaN = NaN"
| "n_div (Fin a) b = Fin 0"
| "n_div a (Fin b) = (if sign_of a * (if b < 0 then - 1 else 1) > 0 then PosInf else NegInf)"
| "n_div a b = NaN"

text \<open>\<^verbatim>\<open>a < b\<close>, false as soon as an operand is \<^verbatim>\<open>NaN\<close>.\<close>

fun n_lt :: "number \<Rightarrow> number \<Rightarrow> bool" where
  "n_lt (Fin a) (Fin b) = (a < b)"
| "n_lt NaN b = False"
| "n_lt a NaN = False"
| "n_lt a NegInf = False"
| "n_lt PosInf b = False"
| "n_lt a b = True"

text \<open>\<^verbatim>\<open>a > b\<close>\<close>

definition n_gt :: "number \<Rightarrow> number \<Rightarrow> bool" where
  "n_gt a b = n_lt b a"

text \<open>\<^verbatim>\<open>a >= b\<close>\<close>

definition n_ge :: "number \<Rightarrow> number \<Rightarrow> bool" where
  "n_ge a b = (a \<noteq> NaN \<and> b \<noteq> NaN \<and> \<not> n_lt a b)"

text \<open>\<^verbatim>\<open>a !== b\<close> on numbers: \<^verbatim>\<open>NaN\<close> differs from everything, itself included.\<close>

definition n_sne :: "number \<Rightarrow> number \<Rightarrow> bool" where
  "n_sne a b = (a = NaN \<or> b = NaN \<or> a \<noteq> b)"

fun Math_abs :: "number \<Rightarrow> number" where
  "Math_abs (Fin x) = Fin \<bar>x\<bar>"
| "Math_abs NaN = NaN"
| "Math_abs a = PosInf"

definition Math_min :: "number \<Rightarrow> number \<Rightarrow> number" where
  "Math_min a b = (if a = NaN \<or> b = NaN then NaN else if n_lt b a then b else a)"

definition Math_max :: "number \<Rightarrow> number \<Rightarrow> number" where
  "Math_max a b = (if a = NaN \<or> b = NaN then NaN else if n_lt a b then b else a)"

text \<open>\<^verbatim>\<open>Math.round\<close>: the nearest integer, a tie going up.\<close>

fun Math_round :: "number \<Rightarrow> number" where
  "Math_round (Fin x) = Fin (of_int \<lfloor>x + 1 / 2\<rfloor>)"
| "Math_round a = a"


section \<open>Numbers to strings\<close>

text \<open>
  A JavaScript string is modelled as a \<^typ>\<open>string\<close>. The texts the parser reads are
  taken to be ASCII; the two non-ASCII characters of the reason texts are written as
  their UTF-8 bytes.
\<close>

definition digit_char :: "nat \<Rightarrow> char" where
  "digit_char d = char_of (48 + d)"

text \<open>The decimal digits of a natural number, without leading zeros.\<close>

fun dec :: "nat \<Rightarrow> string" where
  "dec n = (if n < 10 then [digit_char n] else dec (n div 10) @ [digit_char (n mod 10)])"

declare dec.simps [simp del]

text \<open>
  \<open>frac_digits fuel x\<close> is the least number \<open>e\<close> of fractional decimal digits with
  \<open>x * 10 ^ e\<close> an integer, searched up to \<open>fuel\<close>. Every finite double has such an
  \<open>e\<close> below 1075, which is the fuel \<open>decimal_of\<close> gives; for a rational with no such
  \<open>e\<close> (it is no double) the search stops at the fuel and the value is rounded there.
\<close>

definition is_int :: "rat \<Rightarrow> bool" where
  "is_int x = (of_int \<lfloor>x\<rfloor> = x)"

fun frac_digits :: "nat \<Rightarrow> rat \<Rightarrow> nat" where
  "frac_digits 0 x = 0"
| "frac_digits (Suc fuel) x = (if is_int x then 0 else Suc (frac_digits fuel (x * 10)))"

text \<open>\<open>strip10 m = (s, t)\<close>: \<open>m = s * 10 ^ t\<close> and \<open>s\<close> does not end in the digit 0.\<close>

fun strip10 :: "nat \<Rightarrow> nat \<times> nat" where
  "strip10 m =
     (if m \<noteq> 0 \<and> m mod 10 = 0 then (case strip10 (m div 10) of (s, t) \<Rightarrow> (s, Suc t))
      else (m, 0))"

declare strip10.simps [simp del]

text \<open>
  For \<open>x > 0\<close>, \<open>decimal_of x = (s, p)\<close> with \<open>x = s * 10 ^ p\<close> and \<open>s\<close> as short as
  possible: the significant digits and the decimal exponent of the last of them.
\<close>

definition decimal_of :: "rat \<Rightarrow> nat \<times> int" where
  "decimal_of x =
     (let e = frac_digits 1074 x;
          m = nat \<lfloor>x * 10 ^ e + 1 / 2\<rfloor>
      in if e = 0 then (case strip10 m of (s, t) \<Rightarrow> (s, int t)) else (m, - int e))"

text \<open>
  \<^verbatim>\<open>Number::toString\<close> in radix 10 (ECMA-262, 6.1.6.1.20) for a positive number: with
  \<open>k\<close> significant digits \<open>ds\<close> and \<open>n\<close> the position of the decimal point after the
  first digit of \<open>ds\<close>, plain digits for \<open>k \<le> n \<le> 21\<close>, a decimal point inside for
  \<open>0 < n \<le> 21\<close>, leading \<open>0.00\<close> for \<open>-6 < n \<le> 0\<close>, exponent notation otherwise.
\<close>

definition pos_toString :: "rat \<Rightarrow> string" where
  "pos_toString x =
     (case decimal_of x of (s, p) \<Rightarrow>
        let ds = dec s; k = int (length ds); n = k + p
        in if k \<le> n \<and> n \<le> 21 then ds @ replicate (nat (n - k)) (CHR ''0'')
           else if 0 < n \<and> n \<le> 21 then take (nat n) ds @ ''.'' @ drop (nat n) ds
           else if - 6 < n \<and> n \<le> 0 then ''0.'' @ replicate (nat (- n)) (CHR ''0'') @ ds
           else (if k = 1 then ds else take 1 ds @ ''.'' @ drop 1 ds)
                @ ''e'' @ (if n - 1 < 0 then ''-'' else ''+'') @ dec (nat \<bar>n - 1\<bar>))"

text \<open>\<^verbatim>\<open>String(x)\<close> and \<^verbatim>\<open>`${x}`\<close> for a number \<open>x\<close>.\<close>

fun toString :: "number \<Rightarrow> string" where
  "toString NaN = ''NaN''"
| "toString PosInf = ''Infinity''"
| "toString NegInf = ''-Infinity''"
| "toString (Fin x) =
     (if x = 0 then ''0'' else if x < 0 then ''-'' @ pos_toString (- x) else pos_toString x)"

text \<open>
  \<^verbatim>\<open>x.toFixed(f)\<close> (ECMA-262, 21.1.3.3) for \<open>f \<le> 100\<close>: the integer \<open>n\<close> nearest to
  \<open>x * 10 ^ f\<close>, the larger one on a tie, printed with \<open>f\<close> digits after the point;
  from \<open>10 ^ 21\<close> on, and for the values that are not finite, \<^verbatim>\<open>String(x)\<close>.
\<close>

definition toFixed_digits :: "rat \<Rightarrow> nat \<Rightarrow> string" where
  "toFixed_digits x f =
     (let n = nat \<lfloor>x * 10 ^ f + 1 / 2\<rfloor>;
          m = (if n = 0 then ''0'' else dec n);
          m = (if f \<noteq> 0 \<and> length m \<le> f then replicate (f + 1 - length m) (CHR ''0'') @ m else m)
      in if f = 0 then m
         else take (length m - f) m @ ''.'' @ drop (length m - f) m)"

fun toFixed :: "number \<Rightarrow> nat \<Rightarrow> string" where
  "toFixed (Fin x) f =
     (if \<bar>x\<bar> \<ge> 10 ^ 21 then toString (Fin x)
      else if x < 0 then ''-'' @ toFixed_digits (- x) f
      else toFixed_digits x f)"
| "toFixed a f = toString a"

text \<open>\<^verbatim>\<open>s.padStart(n, "0")\<close>\<close>

definition padStart :: "string \<Rightarrow> nat \<Rightarrow> string" where
  "padStart s n = replicate (n - length s) (CHR ''0'') @ s"


section \<open>Strings to numbers\<close>

text \<open>
  \<^verbatim>\<open>s.trim()\<close> removes white space and line terminators at both ends; of the ASCII
  characters these are tab, line feed, vertical tab, form feed, carriage return and space.
\<close>

definition isWhiteSpace :: "char \<Rightarrow> bool" where
  "isWhiteSpace c = (of_char c \<in> {9, 10, 11, 12, 13, 32 :: nat})"

definition trim :: "string \<Rightarrow> string" where
  "trim s = rev (dropWhile isWhiteSpace (rev (dropWhile isWhiteSpace s)))"

text \<open>\<^verbatim>\<open>s.toUpperCase()\<close> on ASCII: the letters a to z move to A to Z.\<close>

definition upper_char :: "char \<Rightarrow> char" where
  "upper_char c = (if 97 \<le> (of_char c :: nat) \<and> (of_char c :: nat) \<le> 122
                   then char_of ((of_char c :: nat) - 32) else c)"

definition toUpperCase :: "string \<Rightarrow> string" where
  "toUpperCase s = map upper_char s"

text \<open>\<^verbatim>\<open>s.replaceAll(" ", "")\<close>\<close>

definition removeSpaces :: "string \<Rightarrow> string" where
  "removeSpaces s = filter (\<lambda>c. c \<noteq> CHR '' '') s"

text \<open>
  \<^verbatim>\<open>s.split(c)\<close> for a separator of one character: the pieces between the occurrences
  of \<open>c\<close>, one more than there are occurrences.
\<close>

fun split :: "char \<Rightarrow> string \<Rightarrow> string list" where
  "split c [] = [[]]"
| "split c (x # xs) =
     (if x = c then [] # split c xs
      else (case split c xs of [] \<Rightarrow> [[x]] | p # ps \<Rightarrow> (x # p) # ps))"

text \<open>The value of a digit in a radix up to 16, \<open>None\<close> for any other character.\<close>

definition digit_val :: "nat \<Rightarrow> char \<Rightarrow> nat option" where
  "digit_val radix c =
     (let n = (of_char c :: nat);
          v = (if 48 \<le> n \<and> n \<le> 57 then n - 48
               else if 65 \<le> n \<and> n \<le> 70 then n - 55
               else if 97 \<le> n \<and> n \<le> 102 then n - 87
               else 16)
      in if v < radix then Some v else None)"

definition is_digit :: "char \<Rightarrow> bool" where
  "is_digit c = (digit_val 10 c \<noteq> None)"

text \<open>The number a non-empty string of digits of the radix denotes.\<close>

definition digits_val :: "nat \<Rightarrow> string \<Rightarrow> nat option" where
  "digits_val radix ds =
     (if ds \<noteq> [] \<and> (\<forall>c \<in> set ds. digit_val radix c \<noteq> None)
      then Some (foldl (\<lambda>a c. a * radix + the (digit_val radix c)) 0 ds)
      else None)"

text \<open>\<open>10 ^ e\<close> for an integer exponent.\<close>

definition pow10 :: "int \<Rightarrow> rat" where
  "pow10 e = (if e < 0 then 1 / 10 ^ nat (- e) else 10 ^ nat e)"

text \<open>
  The exponent part of a decimal literal: nothing, or \<open>e\<close> or \<open>E\<close>, an optional sign
  and at least one digit.
\<close>

definition exponent_part :: "string \<Rightarrow> int option" where
  "exponent_part s =
     (case s of
        [] \<Rightarrow> Some 0
      | c # r \<Rightarrow>
          if c = CHR ''e'' \<or> c = CHR ''E'' then
            (case r of
               [] \<Rightarrow> None
             | d # r' \<Rightarrow>
                 if d = CHR ''+'' then map_option int (digits_val 10 r')
                 else if d = CHR ''-'' then map_option (\<lambda>n. - int n) (digits_val 10 r')
                 else map_option int (digits_val 10 r))
          else None)"

text \<open>
  \<^verbatim>\<open>StrUnsignedDecimalLiteral\<close>: \<^verbatim>\<open>Infinity\<close>, or digits with an optional fraction, or a
  fraction alone, each with an optional exponent part.
\<close>

definition unsigned_decimal :: "string \<Rightarrow> number" where
  "unsigned_decimal s =
     (if s = ''Infinity'' then PosInf
      else
        let ip = takeWhile is_digit s;
            r1 = dropWhile is_digit s;
            dot = (r1 \<noteq> [] \<and> hd r1 = CHR ''.'');
            fp = (if dot then takeWhile is_digit (tl r1) else []);
            r2 = (if dot then dropWhile is_digit (tl r1) else r1)
        in if ip = [] \<and> fp = [] then NaN
           else (case exponent_part r2 of
                   None \<Rightarrow> NaN
                 | Some e \<Rightarrow>
                     Fin (of_nat (foldl (\<lambda>a c. a * 10 + the (digit_val 10 c)) 0 (ip @ fp))
                          * pow10 (e - int (length fp)))))"

text \<open>A literal with a radix prefix: \<open>0x\<close>, \<open>0o\<close> or \<open>0b\<close> in either case.\<close>

definition radix_of_prefix :: "string \<Rightarrow> nat option" where
  "radix_of_prefix s =
     (case s of
        c # d # r \<Rightarrow>
          if c \<noteq> CHR ''0'' then None
          else if d = CHR ''x'' \<or> d = CHR ''X'' then Some 16
          else if d = CHR ''o'' \<or> d = CHR ''O'' then Some 8
          else if d = CHR ''b'' \<or> d = CHR ''B'' then Some 2
          else None
      | _ \<Rightarrow> None)"

text \<open>
  \<^verbatim>\<open>Number(s)\<close> for a string \<open>s\<close> (ECMA-262, 7.1.4.1 StringToNumber): white space around
  the literal is skipped, the empty string is 0, a literal with a radix prefix has no
  sign, a decimal literal may have one, and everything else is \<^verbatim>\<open>NaN\<close>. The value is
  the exact value of the literal.
\<close>

definition Number :: "string \<Rightarrow> number" where
  "Number s =
     (let t = trim s
      in if t = [] then Fin 0
         else (case radix_of_prefix t of
                 Some radix \<Rightarrow>
                   (case digits_val radix (drop 2 t) of
                      None \<Rightarrow> NaN
                    | Some v \<Rightarrow> Fin (of_nat v))
               | None \<Rightarrow>
                   if hd t = CHR ''+'' then unsigned_decimal (tl t)
                   else if hd t = CHR ''-'' then n_neg (unsigned_decimal (tl t))
                   else unsigned_decimal t))"


section \<open>The fitment engine of \<^verbatim>\<open>src/app/page.tsx\<close>\<close>

subsection \<open>Constants and the tyre type\<close>

definition DEMO_VRM :: string where
  "DEMO_VRM = ''Y14 DRT''"

definition OEM_TYRE :: string where
  "OEM_TYRE = ''265/30 R20''"

text \<open>The four fields of \<^verbatim>\<open>LIMITS\<close>.\<close>

definition diameterPctMax :: number where
  "diameterPctMax = Fin 3"

definition widthDeltaMaxMm :: number where
  "widthDeltaMaxMm = Fin 25"

definition aspectDeltaMaxForFullPenalty :: number where
  "aspectDeltaMaxForFullPenalty = Fin 10"

definition minScoreShown :: number where
  "minScoreShown = Fin 65"

record Tyre =
  widthMm :: number
  aspect :: number
  rimIn :: number

subsection \<open>Parsing and formatting\<close>

definition normalise :: "string \<Rightarrow> string" where
  "normalise s = removeSpaces (toUpperCase (trim s))"

definition parseTyreSize :: "string \<Rightarrow> Tyre option" where
  "parseTyreSize input =
     (let s = normalise input;
          parts = split (CHR ''R'') s
      in if length parts \<noteq> 2 then None
         else
           let left = parts ! 0;
               rimStr = parts ! 1;
               lr = split (CHR ''/'') left
           in if length lr \<noteq> 2 then None
              else
                let w = Number (lr ! 0);
                    a = Number (lr ! 1);
                    r = Number rimStr
                in if \<not> isFinite w \<or> \<not> isFinite a \<or> \<not> isFinite r then None
                   else if length (toString w) \<noteq> 3 then None
                   else if n_lt a (Fin 10) \<or> n_gt a (Fin 95) then None
                   else if n_lt r (Fin 10) \<or> n_gt r (Fin 30) then None
                   else Some \<lparr>widthMm = w, aspect = a, rimIn = r\<rparr>)"

definition formatTyreSize :: "Tyre \<Rightarrow> string" where
  "formatTyreSize t =
     toString (widthMm t) @ ''/'' @ padStart (toString (aspect t)) 2 @ '' R'' @ toString (rimIn t)"

subsection \<open>Geometry\<close>

definition overallDiameterMm :: "Tyre \<Rightarrow> number" where
  "overallDiameterMm t =
     (let rimMm = n_mul (rimIn t) (Fin (254 / 10));
          sidewallMm = n_mul (widthMm t) (n_div (aspect t) (Fin 100))
      in n_add rimMm (n_mul (Fin 2) sidewallMm))"

definition pctDiff :: "number \<Rightarrow> number \<Rightarrow> number" where
  "pctDiff a b = n_mul (Math_abs (n_div (n_sub b a) a)) (Fin 100)"

definition clamp :: "number \<Rightarrow> number \<Rightarrow> number \<Rightarrow> number" where
  "clamp n mn mx = Math_max mn (Math_min mx n)"

subsection \<open>Retailer links\<close>

definition sizeToSlug :: "string \<Rightarrow> string option" where
  "sizeToSlug sz =
     (case parseTyreSize sz of
        None \<Rightarrow> None
      | Some t \<Rightarrow>
          Some (toString (widthMm t) @ ''-'' @ padStart (toString (aspect t)) 2 @ ''-''
                @ toString (rimIn t)))"

record Links =
  blackcircles :: "string option"
  national :: "string option"

definition retailerLinksForSize :: "string \<Rightarrow> Links" where
  "retailerLinksForSize sz =
     (case sizeToSlug sz of
        None \<Rightarrow> \<lparr>blackcircles = None, national = None\<rparr>
      | Some slug \<Rightarrow>
          \<lparr>blackcircles = Some (''https://www.blackcircles.com/tyres/'' @ slug),
           national = Some (''https://www.national.co.uk/tyres-search/'' @ slug)\<rparr>)"

subsection \<open>Scoring\<close>

text \<open>
  The Greek capital delta and the plus-minus sign of the reason texts, in UTF-8.
\<close>

definition Delta :: string where
  "Delta = [CHR 0xCE, CHR 0x94]"

definition PlusMinus :: string where
  "PlusMinus = [CHR 0xC2, CHR 0xB1]"

record ScoreResult =
  safe :: bool
  score :: number
  reasons :: "string list"

definition scoreAlternative :: "Tyre \<Rightarrow> Tyre \<Rightarrow> ScoreResult" where
  "scoreAlternative oem alt =
     (let oemDia = overallDiameterMm oem;
          altDia = overallDiameterMm alt;
          diaDiffPct = pctDiff oemDia altDia
      in if n_gt diaDiffPct diameterPctMax then
           \<lparr>safe = False, score = Fin 0,
            reasons = [''Diameter '' @ Delta @ '' '' @ toFixed diaDiffPct 2 @ ''% (limit ''
                       @ toString diameterPctMax @ ''%)'']\<rparr>
         else if n_sne (rimIn alt) (rimIn oem) then
           \<lparr>safe = False, score = Fin 0, reasons = [''Rim size differs from OEM'']\<rparr>
         else
           let widthDelta = Math_abs (n_sub (widthMm alt) (widthMm oem))
           in if n_gt widthDelta widthDeltaMaxMm then
                \<lparr>safe = False, score = Fin 0,
                 reasons = [''Width '' @ Delta @ '' '' @ toString widthDelta @ ''mm (limit ''
                            @ PlusMinus @ toString widthDeltaMaxMm @ ''mm)'']\<rparr>
              else
                let diaPenalty =
                      clamp (n_mul (n_div diaDiffPct diameterPctMax) (Fin 55)) (Fin 0) (Fin 55);
                    widthPenalty =
                      clamp (n_mul (n_div widthDelta widthDeltaMaxMm) (Fin 25)) (Fin 0) (Fin 25);
                    aspectDelta = Math_abs (n_sub (aspect alt) (aspect oem));
                    aspectPenalty =
                      clamp (n_mul (n_div aspectDelta aspectDeltaMaxForFullPenalty) (Fin 20))
                        (Fin 0) (Fin 20);
                    sc = clamp
                           (Math_round
                              (n_sub (Fin 100)
                                 (n_add (n_add diaPenalty widthPenalty) aspectPenalty)))
                           (Fin 0) (Fin 100)
                in \<lparr>safe = True, score = sc,
                    reasons = [''Diameter '' @ Delta @ '' '' @ toFixed diaDiffPct 2 @ ''%'',
                               ''Width '' @ Delta @ '' '' @ toString widthDelta @ ''mm'',
                               ''Aspect '' @ Delta @ '' '' @ toString aspectDelta]\<rparr>)"


subsection \<open>The search\<close>

text \<open>
  The entries of the result list, \<^verbatim>\<open>{ size, score, reasons, links }\<close>, and the entries
  before the final \<^verbatim>\<open>map\<close>, which carry \<^verbatim>\<open>safe\<close> as well.
\<close>

record Alt =
  alt_size :: string
  alt_score :: number
  alt_reasons :: "string list"
  alt_links :: Links

record ScoredAlt = Alt +
  alt_safe :: bool

text \<open>The value of \<^verbatim>\<open>candidates\<close> after the pushes of lines 207 to 216.\<close>

definition candidates :: "Tyre \<Rightarrow> Tyre list" where
  "candidates parsedOEM =
     (let widths = [Fin (- 20), Fin (- 10), Fin 10, Fin 20];
          aspects = [Fin (- 5), Fin 5]
      in map (\<lambda>dw. parsedOEM\<lparr>widthMm := n_add (widthMm parsedOEM) dw\<rparr>) widths
         @ map (\<lambda>da. parsedOEM\<lparr>aspect := n_add (aspect parsedOEM) da\<rparr>) aspects
         @ [parsedOEM\<lparr>widthMm := n_sub (widthMm parsedOEM) (Fin 10),
                      aspect := n_sub (aspect parsedOEM) (Fin 5)\<rparr>,
            parsedOEM\<lparr>widthMm := n_add (widthMm parsedOEM) (Fin 10),
                      aspect := n_sub (aspect parsedOEM) (Fin 5)\<rparr>])"

text \<open>
  The filter with the set \<^verbatim>\<open>seen\<close>: an entry is kept if its size was not seen
  before, and its size is then added to the set.
\<close>

fun dedup :: "string set \<Rightarrow> (Tyre \<times> string) list \<Rightarrow> (Tyre \<times> string) list" where
  "dedup seen [] = []"
| "dedup seen (x # xs) =
     (if snd x \<in> seen then dedup seen xs else x # dedup (insert (snd x) seen) xs)"

text \<open>
  \<^verbatim>\<open>xs.sort(cmp)\<close> is stable (ECMA-262, 23.1.3.30): the result is ordered by the
  comparator and entries that compare equal keep their order. It is computed by
  inserting the entries from the right, each in front of the first entry it is not
  greater than; a comparison that gives \<^verbatim>\<open>NaN\<close> counts as equal.
\<close>

fun insert_by :: "('a \<Rightarrow> 'a \<Rightarrow> number) \<Rightarrow> 'a \<Rightarrow> 'a list \<Rightarrow> 'a list" where
  "insert_by cmp x [] = [x]"
| "insert_by cmp x (y # ys) =
     (if n_gt (cmp x y) (Fin 0) then y # insert_by cmp x ys else x # y # ys)"

definition sort_by :: "('a \<Rightarrow> 'a \<Rightarrow> number) \<Rightarrow> 'a list \<Rightarrow> 'a list" where
  "sort_by cmp xs = foldr (insert_by cmp) xs []"

text \<open>
  Lines 219 to 237: the candidates with their sizes, without the OEM size and without
  repeated sizes, scored, and of these the safe ones that reach the minimum score.
\<close>

definition shown :: "Tyre \<Rightarrow> Tyre list \<Rightarrow> ScoredAlt list" where
  "shown parsedOEM cands =
     filter (\<lambda>x. alt_safe x \<and> n_ge (alt_score x) minScoreShown)
       (map (\<lambda>x. let s = scoreAlternative parsedOEM (fst x)
                  in \<lparr>alt_size = snd x, alt_score = score s, alt_reasons = reasons s,
                      alt_links = retailerLinksForSize (snd x), alt_safe = safe s\<rparr>)
          (dedup {}
             (filter (\<lambda>x. snd x \<noteq> OEM_TYRE)
                (map (\<lambda>t. (t, formatTyreSize t)) cands))))"

text \<open>Lines 219 to 239: the value of \<^verbatim>\<open>scored\<close>.\<close>

definition scored :: "Tyre \<Rightarrow> Tyre list \<Rightarrow> Alt list" where
  "scored parsedOEM cands =
     map Alt.truncate
       (sort_by (\<lambda>a b. n_sub (alt_score b) (alt_score a)) (shown parsedOEM cands))"

text \<open>
  The state of the page: the text of the registration box, the error line, the OEM
  panel (registration and size) and the list of alternatives.
\<close>

record PageState =
  st_vrm :: string
  st_error :: string
  st_oem :: "(string \<times> string) option"
  st_alts :: "Alt list"

definition runSearch :: "PageState \<Rightarrow> PageState" where
  "runSearch st0 =
     (let st = st0\<lparr>st_error := []\<rparr>;
          v = toUpperCase (trim (st_vrm st))
      in if v \<noteq> DEMO_VRM then
           st\<lparr>st_oem := None, st_alts := [],
              st_error := ''DEMO ONLY: try '' @ [CHR 0x22] @ DEMO_VRM @ [CHR 0x22]\<rparr>
         else
           (case parseTyreSize OEM_TYRE of
              None \<Rightarrow> st\<lparr>st_error := ''OEM tyre size invalid in demo.''\<rparr>
            | Some parsedOEM \<Rightarrow>
                st\<lparr>st_oem := Some (v, OEM_TYRE),
                   st_alts := scored parsedOEM (candidates parsedOEM)\<rparr>))"


subsection \<open>The score on finite deltas\<close>



text \<open>The rational a finite number stands for; 0 for the others.\<close>

fun fin_val :: "number \<Rightarrow> rat" where
  "fin_val (Fin x) = x"
| "fin_val a = 0"


section \<open>Properties of the scoring\<close>






text \<open>The three gates are passed exactly by the candidates that are reported safe.\<close>

lemma safe_gates:
  "safe (scoreAlternative oem alt) \<Longrightarrow>
     \<not> n_gt (pctDiff (overallDiameterMm oem) (overallDiameterMm alt)) diameterPctMax
     \<and> \<not> n_sne (rimIn alt) (rimIn oem)
     \<and> \<not> n_gt (Math_abs (n_sub (widthMm alt) (widthMm oem))) widthDeltaMaxMm"
  by (simp add: scoreAlternative_def Let_def split: if_splits)

lemma gates_score:
  assumes "\<not> n_gt (pctDiff (overallDiameterMm oem) (overallDiameterMm alt)) diameterPctMax"
    and "\<not> n_sne (rimIn alt) (rimIn oem)"
    and "\<not> n_gt (Math_abs (n_sub (widthMm alt) (widthMm oem))) widthDeltaMaxMm"
  shows "scoreAlternative oem alt =
    \<lparr>safe = True,
     score = clamp (Math_round (n_sub (Fin 100)
        (n_add (n_add
           (clamp (n_mul (n_div (pctDiff (overallDiameterMm oem) (overallDiameterMm alt))
                            diameterPctMax) (Fin 55)) (Fin 0) (Fin 55))
           (clamp (n_mul (n_div (Math_abs (n_sub (widthMm alt) (widthMm oem)))
                            widthDeltaMaxMm) (Fin 25)) (Fin 0) (Fin 25)))
           (clamp (n_mul (n_div (Math_abs (n_sub (aspect alt) (aspect oem)))
                            aspectDeltaMaxForFullPenalty) (Fin 20)) (Fin 0) (Fin 20)))))
        (Fin 0) (Fin 100),
     reasons =
       [''Diameter '' @ Delta @ '' ''
          @ toFixed (pctDiff (overallDiameterMm oem) (overallDiameterMm alt)) 2 @ ''%'',
        ''Width '' @ Delta @ '' ''
          @ toString (Math_abs (n_sub (widthMm alt) (widthMm oem))) @ ''mm'',
        ''Aspect '' @ Delta @ '' '' @ toString (Math_abs (n_sub (aspect alt) (aspect oem)))]\<rparr>"
  using assms unfolding scoreAlternative_def Let_def by simp

lemma unsafe_score:
  "\<not> safe (scoreAlternative oem alt) \<Longrightarrow> score (scoreAlternative oem alt) = Fin 0"
  by (simp add: scoreAlternative_def Let_def split: if_splits)




text \<open>
  C3. A candidate whose rim diameter differs from the OEM's is reported unsafe with score
  0, whatever its width, aspect and overall diameter are.
\<close>

theorem rim_gate_rejects:
  "rimIn alt \<noteq> rimIn oem \<Longrightarrow>
   safe (scoreAlternative oem alt) = False \<and> score (scoreAlternative oem alt) = Fin 0"
  by (simp add: scoreAlternative_def Let_def n_sne_def)

text \<open>
  An instance where the diameter gate lets the candidate through (245/35 R19 against
  265/30 R20, 1.93 percent), so that it is the rim gate that rejects.
\<close>

theorem rim_gate_rejects_witness:
  "rimIn \<lparr>widthMm = Fin 245, aspect = Fin 35, rimIn = Fin 19\<rparr>
     \<noteq> rimIn \<lparr>widthMm = Fin 265, aspect = Fin 30, rimIn = Fin 20\<rparr>
   \<and> \<not> n_gt (pctDiff (overallDiameterMm \<lparr>widthMm = Fin 265, aspect = Fin 30, rimIn = Fin 20\<rparr>)
                 (overallDiameterMm \<lparr>widthMm = Fin 245, aspect = Fin 35, rimIn = Fin 19\<rparr>))
          diameterPctMax
   \<and> safe (scoreAlternative \<lparr>widthMm = Fin 265, aspect = Fin 30, rimIn = Fin 20\<rparr>
             \<lparr>widthMm = Fin 245, aspect = Fin 35, rimIn = Fin 19\<rparr>) = False
   \<and> score (scoreAlternative \<lparr>widthMm = Fin 265, aspect = Fin 30, rimIn = Fin 20\<rparr>
             \<lparr>widthMm = Fin 245, aspect = Fin 35, rimIn = Fin 19\<rparr>) = Fin 0"
  using rim_gate_rejects [of "\<lparr>widthMm = Fin 245, aspect = Fin 35, rimIn = Fin 19\<rparr>"
      "\<lparr>widthMm = Fin 265, aspect = Fin 30, rimIn = Fin 20\<rparr>"]
  by (simp add: overallDiameterMm_def pctDiff_def n_sub_def n_gt_def diameterPctMax_def)






text \<open>
  C7. OEM 265/30 R20 and candidate 255/35 R20: the overall diameters are 667 and 686.5, the
  diameter delta is \<open>|686.5 - 667| / 667 * 100\<close>, the width delta is 10 and the aspect
  delta is 5; the candidate passes the three gates and is scored (26).
\<close>

theorem example_265_30_20_vs_255_35_20:
  "parseTyreSize ''265/30 R20'' = Some \<lparr>widthMm = Fin 265, aspect = Fin 30, rimIn = Fin 20\<rparr>
   \<and> parseTyreSize ''255/35 R20'' = Some \<lparr>widthMm = Fin 255, aspect = Fin 35, rimIn = Fin 20\<rparr>
   \<and> overallDiameterMm \<lparr>widthMm = Fin 265, aspect = Fin 30, rimIn = Fin 20\<rparr> = Fin 667
   \<and> overallDiameterMm \<lparr>widthMm = Fin 255, aspect = Fin 35, rimIn = Fin 20\<rparr> = Fin (6865 / 10)
   \<and> pctDiff (Fin 667) (Fin (6865 / 10)) = Fin (\<bar>6865 / 10 - 667\<bar> / 667 * 100)
   \<and> Math_abs (n_sub (Fin 255) (Fin 265)) = Fin 10
   \<and> Math_abs (n_sub (Fin 35) (Fin 30)) = Fin 5
   \<and> scoreAlternative \<lparr>widthMm = Fin 265, aspect = Fin 30, rimIn = Fin 20\<rparr>
        \<lparr>widthMm = Fin 255, aspect = Fin 35, rimIn = Fin 20\<rparr> =
       \<lparr>safe = True, score = Fin 26,
        reasons = [''Diameter '' @ Delta @ '' 2.92%'', ''Width '' @ Delta @ '' 10mm'',
                   ''Aspect '' @ Delta @ '' 5'']\<rparr>"
proof -
  have p1: "parseTyreSize ''265/30 R20'' = Some \<lparr>widthMm = Fin 265, aspect = Fin 30, rimIn = Fin 20\<rparr>"
    by code_simp
  have p2: "parseTyreSize ''255/35 R20'' = Some \<lparr>widthMm = Fin 255, aspect = Fin 35, rimIn = Fin 20\<rparr>"
    by code_simp
  have d1: "overallDiameterMm \<lparr>widthMm = Fin 265, aspect = Fin 30, rimIn = Fin 20\<rparr> = Fin 667"
    by (simp add: overallDiameterMm_def)
  have d2: "overallDiameterMm \<lparr>widthMm = Fin 255, aspect = Fin 35, rimIn = Fin 20\<rparr> = Fin (6865 / 10)"
    by (simp add: overallDiameterMm_def)
  have pd: "pctDiff (Fin 667) (Fin (6865 / 10)) = Fin (\<bar>6865 / 10 - 667\<bar> / 667 * 100)"
    by (simp add: pctDiff_def n_sub_def)
  have w: "Math_abs (n_sub (Fin 255) (Fin 265)) = Fin 10" by (simp add: n_sub_def)
  have a: "Math_abs (n_sub (Fin 35) (Fin 30)) = Fin 5" by (simp add: n_sub_def)
  have s: "scoreAlternative \<lparr>widthMm = Fin 265, aspect = Fin 30, rimIn = Fin 20\<rparr>
        \<lparr>widthMm = Fin 255, aspect = Fin 35, rimIn = Fin 20\<rparr> =
       \<lparr>safe = True, score = Fin 26,
        reasons = [''Diameter '' @ Delta @ '' 2.92%'', ''Width '' @ Delta @ '' 10mm'',
                   ''Aspect '' @ Delta @ '' 5'']\<rparr>"
    by code_simp
  show ?thesis
    using p1 p2 d1 d2 pd w a s by blast
qed

theorem example_265_30_20_vs_255_35_20_witness:
  "safe (scoreAlternative \<lparr>widthMm = Fin 265, aspect = Fin 30, rimIn = Fin 20\<rparr>
           \<lparr>widthMm = Fin 255, aspect = Fin 35, rimIn = Fin 20\<rparr>)"
  using example_265_30_20_vs_255_35_20 by simp





section \<open>Properties of the parser\<close>

subsection \<open>Decimal digits\<close>

lemma is_digit_iff: "is_digit c \<longleftrightarrow> 48 \<le> (of_char c :: nat) \<and> (of_char c :: nat) \<le> 57"
  by (auto simp add: is_digit_def digit_val_def Let_def)

lemma of_char_digit_char: "d < 10 \<Longrightarrow> (of_char (digit_char d) :: nat) = 48 + d"
  by (simp add: digit_char_def)

lemma is_digit_digit_char: "d < 10 \<Longrightarrow> is_digit (digit_char d)"
  by (simp add: is_digit_iff of_char_digit_char)

lemma digit_val_digit_char: "d < 10 \<Longrightarrow> digit_val 10 (digit_char d) = Some d"
  by (simp add: digit_val_def of_char_digit_char)

lemma digit_char_0: "digit_char 0 = CHR ''0''"
  by code_simp

lemma dec_digits: "c \<in> set (dec n) \<Longrightarrow> is_digit c"
proof (induction n arbitrary: c rule: dec.induct)
  case (1 n)
  show ?case
  proof (cases "n < 10")
    case True
    with "1.prems" show ?thesis by (simp add: dec.simps [of n] is_digit_digit_char)
  next
    case False
    with "1.prems" "1.IH" show ?thesis
      by (auto simp add: dec.simps [of n] is_digit_digit_char)
  qed
qed

lemma dec_nonempty: "dec n \<noteq> []"
  by (subst dec.simps) simp

lemma dec_value: "foldl (\<lambda>a c. a * 10 + the (digit_val 10 c)) 0 (dec n) = n"
proof (induction n rule: dec.induct)
  case (1 n)
  show ?case
  proof (cases "n < 10")
    case True
    then show ?thesis by (simp add: dec.simps [of n] digit_val_digit_char)
  next
    case False
    with "1.IH" show ?thesis
      by (simp add: dec.simps [of n] digit_val_digit_char)
  qed
qed

lemma length_dec_1: "n < 10 \<Longrightarrow> length (dec n) = 1"
  by (simp add: dec.simps [of n])

lemma length_dec_2: "10 \<le> n \<Longrightarrow> n < 100 \<Longrightarrow> length (dec n) = 2"
  by (simp add: dec.simps [of n] length_dec_1)

lemma length_dec_3: "100 \<le> n \<Longrightarrow> n < 1000 \<Longrightarrow> length (dec n) = 3"
  by (simp add: dec.simps [of n] length_dec_2)

lemma dec_mult10: "0 < n \<Longrightarrow> dec (n * 10) = dec n @ [digit_char 0]"
  by (subst dec.simps) simp

lemma strip10_dec:
  "0 < m \<Longrightarrow> strip10 m = (s, t) \<Longrightarrow> dec m = dec s @ replicate t (CHR ''0'') \<and> 0 < s"
proof (induction m arbitrary: s t rule: strip10.induct)
  case (1 m)
  show ?case
  proof (cases "m mod 10 = 0")
    case True
    obtain s' t' where st: "strip10 (m div 10) = (s', t')" by (cases "strip10 (m div 10)")
    from True "1.prems" have m: "m = (m div 10) * 10" "0 < m div 10" by auto
    from "1.prems" True st have e: "s = s'" "t = Suc t'"
      by (simp_all add: strip10.simps [of m])
    from "1.IH" [OF _ m(2) st] True "1.prems"
    have ih: "dec (m div 10) = dec s' @ replicate t' (CHR ''0'')" "0 < s'" by auto
    have "dec m = dec (m div 10) @ [digit_char 0]"
      using dec_mult10 [OF m(2)] m(1) by simp
    also have "\<dots> = dec s' @ replicate (Suc t') (CHR ''0'')"
      by (simp add: ih(1) digit_char_0 replicate_append_same)
    finally show ?thesis using e ih(2) by simp
  next
    case False
    with "1.prems" show ?thesis by (simp add: strip10.simps [of m])
  qed
qed

lemma is_int_of_nat: "is_int (of_nat n)"
  by (simp add: is_int_def)

lemma frac_digits_int: "is_int x \<Longrightarrow> frac_digits fuel x = 0"
  by (cases fuel) simp_all

lemma floor_half: "\<lfloor>(of_nat n :: rat) + 1 / 2\<rfloor> = int n"
  by (simp add: floor_eq_iff)

lemma floor_half0: "\<lfloor>(1 :: rat) / 2\<rfloor> = 0"
  by (simp add: floor_eq_iff)

lemma toString_of_nat:
  assumes "length (dec n) \<le> 21"
  shows "toString (Fin (of_nat n)) = dec n"
proof (cases "n = 0")
  case True
  then show ?thesis by (simp add: dec.simps [of 0] digit_char_0)
next
  case False
  then have pos: "0 < n" by simp
  obtain s t where st: "strip10 n = (s, t)" by (cases "strip10 n")
  from strip10_dec [OF pos st] have d: "dec n = dec s @ replicate t (CHR ''0'')" by simp
  have dd: "decimal_of (of_nat n) = (s, int t)"
    by (simp add: decimal_of_def frac_digits_int is_int_of_nat floor_half0 st)
  have "pos_toString (of_nat n) = dec n"
    using assms by (simp add: pos_toString_def dd Let_def d)
  then show ?thesis using pos by simp
qed

subsection \<open>Strings of digits as numbers\<close>

lemma is_digit_not_ws: "is_digit c \<Longrightarrow> \<not> isWhiteSpace c"
  by (auto simp add: is_digit_iff isWhiteSpace_def)

lemma is_digit_chars:
  assumes "is_digit c"
  shows "c \<noteq> CHR ''R''" "c \<noteq> CHR ''/''" "c \<noteq> CHR '' ''" "c \<noteq> CHR ''+''" "c \<noteq> CHR ''-''"
    "c \<noteq> CHR ''x''" "c \<noteq> CHR ''X''" "c \<noteq> CHR ''o''" "c \<noteq> CHR ''O''"
    "c \<noteq> CHR ''b''" "c \<noteq> CHR ''B''" "c \<noteq> CHR ''I''" "c \<noteq> CHR ''.''"
  using assms by (auto simp add: is_digit_iff)

lemma upper_char_digit: "is_digit c \<Longrightarrow> upper_char c = c"
  by (simp add: upper_char_def is_digit_iff)

lemma trim_id:
  assumes "s \<noteq> []" "\<not> isWhiteSpace (hd s)" "\<not> isWhiteSpace (last s)"
  shows "trim s = s"
proof -
  have 1: "dropWhile isWhiteSpace s = s"
    using assms(1,2) by (cases s) simp_all
  have 2: "dropWhile isWhiteSpace (rev s) = rev s"
    using assms(1,3) by (cases "rev s") (simp_all add: hd_rev [symmetric])
  show ?thesis by (simp add: trim_def 1 2)
qed

lemma trim_digits:
  assumes "ds \<noteq> []" "\<forall>c \<in> set ds. is_digit c"
  shows "trim ds = ds"
  using assms by (intro trim_id) (simp_all add: is_digit_not_ws)

lemma radix_of_prefix_digits:
  assumes "\<forall>c \<in> set ds. is_digit c"
  shows "radix_of_prefix ds = None"
proof (cases ds)
  case Nil
  then show ?thesis by (simp add: radix_of_prefix_def)
next
  case (Cons c r)
  show ?thesis
  proof (cases r)
    case Nil
    with Cons show ?thesis by (simp add: radix_of_prefix_def)
  next
    case (Cons d r')
    with \<open>ds = c # r\<close> assms have "is_digit d" by simp
    from is_digit_chars [OF this] show ?thesis
      using Cons \<open>ds = c # r\<close> by (simp add: radix_of_prefix_def)
  qed
qed

lemma unsigned_decimal_digits:
  assumes "ds \<noteq> []" "\<forall>c \<in> set ds. is_digit c"
  shows "unsigned_decimal ds = Fin (of_nat (foldl (\<lambda>a c. a * 10 + the (digit_val 10 c)) 0 ds))"
proof -
  have ni: "ds \<noteq> ''Infinity''"
    using assms(2) is_digit_chars(12) by fastforce
  have tw: "takeWhile is_digit ds = ds" "dropWhile is_digit ds = []"
    using assms(2) by simp_all
  show ?thesis
    using assms(1) by (simp add: unsigned_decimal_def ni tw Let_def exponent_part_def pow10_def)
qed

text \<open>\<open>Number\<close> of a string of decimal digits is the natural number it denotes.\<close>

lemma Number_digits:
  assumes "\<forall>c \<in> set ds. is_digit c"
  shows "Number ds = Fin (of_nat (foldl (\<lambda>a c. a * 10 + the (digit_val 10 c)) 0 ds))"
proof (cases "ds = []")
  case True
  then show ?thesis by (simp add: Number_def trim_def)
next
  case False
  have hd: "is_digit (hd ds)" using False assms by simp
  show ?thesis
    using False is_digit_chars [OF hd]
    by (simp add: Number_def trim_digits [OF False assms] radix_of_prefix_digits [OF assms]
        unsigned_decimal_digits [OF False assms])
qed

lemma Number_dec: "Number (dec n) = Fin (of_nat n)"
  using Number_digits [of "dec n"] dec_digits by (simp add: dec_value)

lemma split_notin: "c \<notin> set xs \<Longrightarrow> split c xs = [xs]"
  by (induction xs) auto

lemma split_append: "c \<notin> set xs \<Longrightarrow> split c (xs @ c # ys) = xs # split c ys"
  by (induction xs) auto

subsection \<open>The round trip\<close>

declare toString.simps [simp del] toFixed.simps [simp del]

lemma toUpperCase_dec: "toUpperCase (dec n) = dec n"
  unfolding toUpperCase_def by (rule map_idI) (simp add: upper_char_digit dec_digits)

lemma removeSpaces_dec: "removeSpaces (dec n) = dec n"
  unfolding removeSpaces_def using dec_digits is_digit_chars(3) by (intro filter_True) blast

lemma upper_char_ascii: "upper_char (CHR ''/'') = CHR ''/''" "upper_char (CHR '' '') = CHR '' ''"
  "upper_char (CHR ''R'') = CHR ''R''"
  by (simp_all add: upper_char_def)

lemma normalise_formatted:
  "normalise (dec w @ ''/'' @ dec a @ '' R'' @ dec r) = dec w @ ''/'' @ dec a @ ''R'' @ dec r"
proof -
  let ?s = "dec w @ ''/'' @ dec a @ '' R'' @ dec r"
  have h: "hd ?s = hd (dec w)" using dec_nonempty by simp
  have l: "last ?s = last (dec r)" using dec_nonempty by simp
  have "is_digit (hd (dec w))" "is_digit (last (dec r))"
    using dec_digits [OF hd_in_set [OF dec_nonempty]]
      dec_digits [OF last_in_set [OF dec_nonempty]] by blast+
  then have "trim ?s = ?s"
    using h l by (intro trim_id) (simp_all add: is_digit_not_ws)
  moreover have "toUpperCase ?s = ?s"
    using toUpperCase_dec by (simp add: toUpperCase_def upper_char_ascii)
  moreover have "removeSpaces ?s = dec w @ ''/'' @ dec a @ ''R'' @ dec r"
    using removeSpaces_dec by (simp add: removeSpaces_def)
  ultimately show ?thesis by (simp add: normalise_def)
qed

lemma dec_no_sep: "CHR ''R'' \<notin> set (dec n)" "CHR ''/'' \<notin> set (dec n)"
  using dec_digits is_digit_chars(1,2) by blast+

text \<open>
  C1. A well-formed tyre size has an integer width of three digits, an integer aspect
  from 10 to 95 and an integer rim from 10 to 30. Parsing the text that
  \<open>formatTyreSize\<close> gives for it yields the same tyre size.
\<close>

theorem parse_format_roundtrip:
  assumes "100 \<le> w" "w \<le> 999" "10 \<le> a" "a \<le> 95" "10 \<le> r" "r \<le> 30"
  shows "parseTyreSize (formatTyreSize
           \<lparr>widthMm = Fin (of_nat w), aspect = Fin (of_nat a), rimIn = Fin (of_nat r)\<rparr>)
         = Some \<lparr>widthMm = Fin (of_nat w), aspect = Fin (of_nat a), rimIn = Fin (of_nat r)\<rparr>"
proof -
  have lw: "length (dec w) = 3" using assms(1,2) by (simp add: length_dec_3)
  have la: "length (dec a) = 2" using assms(3,4) by (simp add: length_dec_2)
  have lr: "length (dec r) = 2" using assms(5,6) by (simp add: length_dec_2)
  have ts: "toString (Fin (of_nat w)) = dec w" "toString (Fin (of_nat a)) = dec a"
    "toString (Fin (of_nat r)) = dec r"
    by (rule toString_of_nat, simp add: lw, rule toString_of_nat, simp add: la,
        rule toString_of_nat, simp add: lr)
  have f: "formatTyreSize
           \<lparr>widthMm = Fin (of_nat w), aspect = Fin (of_nat a), rimIn = Fin (of_nat r)\<rparr>
         = dec w @ ''/'' @ dec a @ '' R'' @ dec r"
    by (simp add: formatTyreSize_def ts padStart_def la)
  have sR: "split (CHR ''R'') (dec w @ ''/'' @ dec a @ ''R'' @ dec r) = [dec w @ ''/'' @ dec a, dec r]"
    using split_append [of "CHR ''R''" "dec w @ ''/'' @ dec a" "dec r"]
    by (simp add: dec_no_sep split_notin)
  have sS: "split (CHR ''/'') (dec w @ CHR ''/'' # dec a) = [dec w, dec a]"
    using split_append [of "CHR ''/''" "dec w" "dec a"]
    by (simp add: dec_no_sep split_notin)
  show ?thesis
    unfolding f parseTyreSize_def normalise_formatted Let_def sR
    using assms by (simp add: sS Number_dec ts lw n_gt_def)
qed

theorem parse_format_roundtrip_witness:
  "(100::nat) \<le> 265 \<and> (265::nat) \<le> 999 \<and> (10::nat) \<le> 30 \<and> (30::nat) \<le> 95
   \<and> (10::nat) \<le> 20 \<and> (20::nat) \<le> 30
   \<and> formatTyreSize \<lparr>widthMm = Fin 265, aspect = Fin 30, rimIn = Fin 20\<rparr> = ''265/30 R20''
   \<and> parseTyreSize ''265/30 R20'' = Some \<lparr>widthMm = Fin 265, aspect = Fin 30, rimIn = Fin 20\<rparr>"
proof -
  have f: "formatTyreSize \<lparr>widthMm = Fin 265, aspect = Fin 30, rimIn = Fin 20\<rparr> = ''265/30 R20''"
    by code_simp
  show ?thesis
    using parse_format_roundtrip [of 265 30 20] by (simp add: f)
qed

subsection \<open>What the parser accepts\<close>

text \<open>
  C2. The width test of \<open>parseTyreSize\<close> counts the characters of \<^verbatim>\<open>String(widthMm)\<close>,
  not its digits: the input \<^verbatim>\<open>-12/30 R20\<close> is parsed to a tyre of width -12, whose
  text \<^verbatim>\<open>-12\<close> has three characters and two digits.
\<close>

theorem parse_accepts_signed_width:
  "parseTyreSize ''-12/30 R20'' = Some \<lparr>widthMm = Fin (- 12), aspect = Fin 30, rimIn = Fin 20\<rparr>
   \<and> toString (Fin (- 12)) = ''-12''"
  by code_simp

theorem parse_accepts_signed_width_witness:
  "\<exists>t. parseTyreSize ''-12/30 R20'' = Some t \<and> widthMm t = Fin (- 12)"
  using parse_accepts_signed_width by simp

text \<open>
  C9, as stated, fails: \<^verbatim>\<open>265/30.5 R20\<close> is parsed to a tyre whose aspect is 30.5.
\<close>

theorem parse_fractional_aspect_counterexample:
  "parseTyreSize ''265/30.5 R20''
     = Some \<lparr>widthMm = Fin 265, aspect = Fin (61 / 2), rimIn = Fin 20\<rparr>
   \<and> \<not> is_int (61 / 2)"
  by code_simp

text \<open>What a successful parse has tested, and where its fields come from.\<close>

lemma parse_checks:
  assumes "parseTyreSize input = Some t"
  shows "isFinite (widthMm t) \<and> isFinite (aspect t) \<and> isFinite (rimIn t)
         \<and> length (toString (widthMm t)) = 3
         \<and> \<not> n_lt (aspect t) (Fin 10) \<and> \<not> n_gt (aspect t) (Fin 95)
         \<and> \<not> n_lt (rimIn t) (Fin 10) \<and> \<not> n_gt (rimIn t) (Fin 30)"
  using assms unfolding parseTyreSize_def Let_def
  by (auto split: if_splits)

lemma parse_segments:
  assumes "parseTyreSize input = Some t"
  shows "length (split (CHR ''R'') (normalise input)) = 2
     \<and> length (split (CHR ''/'') (split (CHR ''R'') (normalise input) ! 0)) = 2
     \<and> widthMm t = Number (split (CHR ''/'') (split (CHR ''R'') (normalise input) ! 0) ! 0)
     \<and> aspect t = Number (split (CHR ''/'') (split (CHR ''R'') (normalise input) ! 0) ! 1)
     \<and> rimIn t = Number (split (CHR ''R'') (normalise input) ! 1)"
  using assms unfolding parseTyreSize_def Let_def
  by (auto split: if_splits)

lemma set_split: "p \<in> set (split c s) \<Longrightarrow> set p \<subseteq> set s - {c}"
proof (induction s arbitrary: p)
  case Nil
  then show ?case by simp
next
  case (Cons x xs)
  show ?case
  proof (cases "x = c")
    case True
    with Cons show ?thesis by auto
  next
    case False
    then show ?thesis
    proof (cases "split c xs")
      case Nil
      with Cons.prems False show ?thesis by auto
    next
      case (Cons q qs)
      with Cons.prems False consider "p = x # q" | "p \<in> set qs" by auto
      then show ?thesis
      proof cases
        case 1
        have "q \<in> set (split c xs)" using Cons by simp
        from Cons.IH [OF this] 1 False show ?thesis by auto
      next
        case 2
        then have "p \<in> set (split c xs)" using Cons by simp
        from Cons.IH [OF this] show ?thesis by auto
      qed
    qed
  qed
qed

lemma set_trim: "set (trim s) \<subseteq> set s"
proof -
  have "set (trim s) \<subseteq> set (rev (dropWhile isWhiteSpace s))"
    unfolding trim_def using set_dropWhileD by fastforce
  also have "\<dots> \<subseteq> set s" using set_dropWhileD by fastforce
  finally show ?thesis .
qed

lemma upper_char_r: "upper_char (CHR ''r'') = CHR ''R''"
  by code_simp

lemma normalise_chars:
  assumes "\<forall>c \<in> set input. is_digit c \<or> c = CHR ''/'' \<or> c = CHR ''R'' \<or> c = CHR ''r'' \<or> c = CHR '' ''"
    and "c \<in> set (normalise input)"
  shows "is_digit c \<or> c = CHR ''/'' \<or> c = CHR ''R''"
proof -
  from assms(2) obtain c' where c': "c' \<in> set (trim input)" "c = upper_char c'" "c \<noteq> CHR '' ''"
    by (auto simp add: normalise_def removeSpaces_def toUpperCase_def)
  from c'(1) set_trim have "c' \<in> set input" by blast
  with assms(1) have "is_digit c' \<or> c' = CHR ''/'' \<or> c' = CHR ''R'' \<or> c' = CHR ''r'' \<or> c' = CHR '' ''"
    by blast
  then show ?thesis
    using c'(2,3) by (auto simp add: upper_char_digit upper_char_ascii upper_char_r)
qed

lemma Number_slash:
  assumes "\<forall>c \<in> set s. is_digit c \<or> c = CHR ''/''" and "CHR ''/'' \<in> set s"
  shows "Number s = NaN"
proof -
  have ne: "s \<noteq> []" using assms(2) by auto
  have nws: "\<not> isWhiteSpace c" if "c \<in> set s" for c
  proof -
    from assms(1) that have "is_digit c \<or> c = CHR ''/''" by blast
    then show ?thesis
    proof
      assume "is_digit c" then show ?thesis by (rule is_digit_not_ws)
    next
      assume "c = CHR ''/''" then show ?thesis by (simp add: isWhiteSpace_def)
    qed
  qed
  have tr: "trim s = s"
    using ne nws by (intro trim_id) simp_all
  have ch: "c \<notin> {CHR ''x'', CHR ''X'', CHR ''o'', CHR ''O'', CHR ''b'', CHR ''B'', CHR ''+'',
                   CHR ''-'', CHR ''I'', CHR ''.'', CHR ''e'', CHR ''E''}"
    if "c \<in> set s" for c
  proof -
    from assms(1) that have "is_digit c \<or> c = CHR ''/''" by blast
    then show ?thesis
    proof
      assume "is_digit c" then show ?thesis by (auto simp add: is_digit_iff)
    next
      assume "c = CHR ''/''" then show ?thesis by simp
    qed
  qed
  have rp: "radix_of_prefix s = None"
  proof (cases s)
    case Nil
    then show ?thesis by (simp add: radix_of_prefix_def)
  next
    case (Cons c r)
    show ?thesis
    proof (cases r)
      case Nil
      with Cons show ?thesis by (simp add: radix_of_prefix_def)
    next
      case (Cons d r')
      with \<open>s = c # r\<close> have "d \<in> set s" by simp
      from ch [OF this] show ?thesis
        using Cons \<open>s = c # r\<close> by (simp add: radix_of_prefix_def)
    qed
  qed
  have hs: "hd s \<noteq> CHR ''+''" "hd s \<noteq> CHR ''-''"
    using ch [of "hd s"] ne by auto
  have ni: "s \<noteq> ''Infinity''"
    using ch [of "CHR ''I''"] by auto
  let ?r1 = "dropWhile is_digit s"
  have "\<not> is_digit (CHR ''/'')" by (simp add: is_digit_iff)
  with assms(2) have r1: "?r1 \<noteq> []" by (auto simp add: dropWhile_eq_Nil_conv)
  then have "\<not> is_digit (hd ?r1)" by (rule hd_dropWhile)
  moreover have "hd ?r1 \<in> set s" using r1 set_dropWhileD hd_in_set by metis
  ultimately have h: "hd ?r1 = CHR ''/''" using assms(1) by blast
  then obtain r' where r': "?r1 = CHR ''/'' # r'" using r1 by (cases ?r1) auto
  have ud: "unsigned_decimal s = NaN"
    by (simp add: unsigned_decimal_def ni Let_def r' exponent_part_def)
  show ?thesis
    using ne hs by (simp add: Number_def tr rp ud)
qed

text \<open>
  C9, amended. The three fields of a parsed tyre size are finite numbers; they are
  natural numbers when the input consists of decimal digits, the slash, the letter R in
  either case and spaces only.
\<close>

theorem parse_fields:
  assumes "parseTyreSize input = Some t"
  shows "isFinite (widthMm t) \<and> isFinite (aspect t) \<and> isFinite (rimIn t)
     \<and> ((\<forall>c \<in> set input. is_digit c \<or> c = CHR ''/'' \<or> c = CHR ''R'' \<or> c = CHR ''r''
                          \<or> c = CHR '' '')
        \<longrightarrow> (\<exists>w a r :: nat. widthMm t = Fin (of_nat w) \<and> aspect t = Fin (of_nat a)
                            \<and> rimIn t = Fin (of_nat r)))"
proof -
  note seg = parse_segments [OF assms]
  let ?parts = "split (CHR ''R'') (normalise input)"
  let ?lr = "split (CHR ''/'') (?parts ! 0)"
  have fin: "isFinite (widthMm t) \<and> isFinite (aspect t) \<and> isFinite (rimIn t)"
    using parse_checks [OF assms] by blast
  have "\<exists>w a r :: nat. widthMm t = Fin (of_nat w) \<and> aspect t = Fin (of_nat a)
                            \<and> rimIn t = Fin (of_nat r)"
    if ch: "\<forall>c \<in> set input. is_digit c \<or> c = CHR ''/'' \<or> c = CHR ''R'' \<or> c = CHR ''r''
                          \<or> c = CHR '' ''"
  proof -
    have p0: "?parts ! 0 \<in> set ?parts" and p1: "?parts ! 1 \<in> set ?parts"
      using seg by simp_all
    have l0: "?lr ! 0 \<in> set ?lr" and l1: "?lr ! 1 \<in> set ?lr"
      using seg by simp_all
    have n: "is_digit c \<or> c = CHR ''/'' \<or> c = CHR ''R''" if "c \<in> set (normalise input)" for c
      using normalise_chars [OF ch that] .
    have c0: "is_digit c \<or> c = CHR ''/''" if "c \<in> set (?parts ! 0)" for c
    proof -
      from that set_split [OF p0] have "c \<in> set (normalise input)" "c \<noteq> CHR ''R''" by auto
      with n show ?thesis by blast
    qed
    have c1: "\<forall>c \<in> set (?parts ! 1). is_digit c"
    proof
      fix c assume "c \<in> set (?parts ! 1)"
      with set_split [OF p1] have c: "c \<in> set (normalise input)" "c \<noteq> CHR ''R''" by auto
      have "CHR ''/'' \<notin> set (?parts ! 1)"
      proof
        assume s: "CHR ''/'' \<in> set (?parts ! 1)"
        have "\<forall>c \<in> set (?parts ! 1). is_digit c \<or> c = CHR ''/''"
          using set_split [OF p1] n by blast
        from Number_slash [OF this s] seg fin show False by simp
      qed
      with n c \<open>c \<in> set (?parts ! 1)\<close> show "is_digit c" by blast
    qed
    have d0: "\<forall>c \<in> set (?lr ! 0). is_digit c"
    proof
      fix c assume "c \<in> set (?lr ! 0)"
      with set_split [OF l0] have "c \<in> set (?parts ! 0)" "c \<noteq> CHR ''/''" by auto
      with c0 show "is_digit c" by blast
    qed
    have d1: "\<forall>c \<in> set (?lr ! 1). is_digit c"
    proof
      fix c assume "c \<in> set (?lr ! 1)"
      with set_split [OF l1] have "c \<in> set (?parts ! 0)" "c \<noteq> CHR ''/''" by auto
      with c0 show "is_digit c" by blast
    qed
    from seg have w: "widthMm t = Number (?lr ! 0)" and a: "aspect t = Number (?lr ! 1)"
      and r: "rimIn t = Number (?parts ! 1)" by simp_all
    show ?thesis
      unfolding w a r Number_digits [OF d0] Number_digits [OF d1] Number_digits [OF c1] by blast
  qed
  with fin show ?thesis by blast
qed

theorem parse_fields_witness:
  "parseTyreSize ''265/30 r20'' = Some \<lparr>widthMm = Fin 265, aspect = Fin 30, rimIn = Fin 20\<rparr>
   \<and> list_all (\<lambda>c. is_digit c \<or> c = CHR ''/'' \<or> c = CHR ''R'' \<or> c = CHR ''r''
                          \<or> c = CHR '' '') ''265/30 r20''
   \<and> isFinite (Fin 265)
   \<and> (\<exists>w a r :: nat. widthMm \<lparr>widthMm = Fin 265, aspect = Fin 30, rimIn = Fin 20\<rparr> = Fin (of_nat w)
         \<and> aspect \<lparr>widthMm = Fin 265, aspect = Fin 30, rimIn = Fin 20\<rparr> = Fin (of_nat a)
         \<and> rimIn \<lparr>widthMm = Fin 265, aspect = Fin 30, rimIn = Fin 20\<rparr> = Fin (of_nat r))"
proof -
  have p: "parseTyreSize ''265/30 r20'' = Some \<lparr>widthMm = Fin 265, aspect = Fin 30, rimIn = Fin 20\<rparr>"
    by code_simp
  have c: "\<forall>c \<in> set ''265/30 r20''. is_digit c \<or> c = CHR ''/'' \<or> c = CHR ''R'' \<or> c = CHR ''r''
                          \<or> c = CHR '' ''"
    by (simp add: is_digit_iff)
  from parse_fields [OF p] c p show ?thesis by (simp add: list_all_iff)
qed


section \<open>Properties of the search\<close>

subsection \<open>The sort and the pipeline\<close>

text \<open>
  On entries with finite scores the comparator \<^verbatim>\<open>(a, b) => b.score - a.score\<close> orders by
  the negated score, and the insertion sort is the library's stable \<open>sort_key\<close>.
\<close>

lemma n_gt_sub_Fin: "n_gt (n_sub (Fin b) (Fin a)) (Fin 0) \<longleftrightarrow> a < b"
  by (simp add: n_gt_def n_sub_def)

lemma insert_by_insort:
  assumes "\<forall>y \<in> set (x # ys). \<exists>r. sc y = Fin r"
  shows "insert_by (\<lambda>a b. n_sub (sc b) (sc a)) x ys = insort_key (\<lambda>a. - fin_val (sc a)) x ys"
  using assms
proof (induction ys)
  case Nil
  then show ?case by simp
next
  case (Cons y ys)
  from Cons.prems obtain rx ry where r: "sc x = Fin rx" "sc y = Fin ry" by auto
  from Cons.prems have "\<forall>y \<in> set (x # ys). \<exists>r. sc y = Fin r" by simp
  from Cons.IH [OF this] show ?case
    by (auto simp add: r n_gt_sub_Fin)
qed

lemma sort_by_sort_key:
  assumes "\<forall>y \<in> set xs. \<exists>r. sc y = Fin r"
  shows "sort_by (\<lambda>a b. n_sub (sc b) (sc a)) xs = sort_key (\<lambda>a. - fin_val (sc a)) xs"
  using assms
proof (induction xs)
  case Nil
  then show ?case by (simp add: sort_by_def)
next
  case (Cons x xs)
  then have ih: "sort_by (\<lambda>a b. n_sub (sc b) (sc a)) xs = sort_key (\<lambda>a. - fin_val (sc a)) xs"
    by simp
  have "\<forall>y \<in> set (x # sort_key (\<lambda>a. - fin_val (sc a)) xs). \<exists>r. sc y = Fin r"
    using Cons.prems by simp
  from insert_by_insort [OF this] show ?case
    using ih by (simp add: sort_by_def sort_key_def)
qed

lemma clamp_range:
  "clamp n (Fin 0) (Fin 100) = NaN \<or> (\<exists>r. clamp n (Fin 0) (Fin 100) = Fin r \<and> 0 \<le> r \<and> r \<le> 100)"
  by (cases n) (auto simp add: clamp_def Math_min_def Math_max_def)

lemma score_range:
  "score (scoreAlternative oem alt) = NaN
   \<or> (\<exists>r. score (scoreAlternative oem alt) = Fin r \<and> 0 \<le> r \<and> r \<le> 100)"
  using clamp_range by (simp add: scoreAlternative_def Let_def)

lemma set_dedup: "set (dedup seen xs) \<subseteq> set xs"
  by (induction xs arbitrary: seen) auto

lemma subseq_dedup: "subseq (map snd (dedup seen xs)) (map snd xs)"
  by (induction xs arbitrary: seen) auto

lemma shown_origin:
  assumes "x \<in> set (shown oem cands)"
  shows "\<exists>t \<in> set cands. alt_size x = formatTyreSize t
           \<and> alt_score x = score (scoreAlternative oem t)
           \<and> alt_reasons x = reasons (scoreAlternative oem t)
           \<and> safe (scoreAlternative oem t)
           \<and> n_ge (alt_score x) minScoreShown"
proof -
  from assms obtain p where p: "p \<in> set (dedup {} (filter (\<lambda>x. snd x \<noteq> OEM_TYRE)
                (map (\<lambda>t. (t, formatTyreSize t)) cands)))"
    and x: "x = \<lparr>alt_size = snd p, alt_score = score (scoreAlternative oem (fst p)),
               alt_reasons = reasons (scoreAlternative oem (fst p)),
               alt_links = retailerLinksForSize (snd p),
               alt_safe = safe (scoreAlternative oem (fst p))\<rparr>"
    and ok: "alt_safe x" "n_ge (alt_score x) minScoreShown"
    by (auto simp add: shown_def Let_def)
  from p set_dedup have "p \<in> set (map (\<lambda>t. (t, formatTyreSize t)) cands)" by fastforce
  then obtain t where t: "t \<in> set cands" "p = (t, formatTyreSize t)" by auto
  show ?thesis using t ok by (intro bexI [of _ t]) (simp_all add: x)
qed

lemma shown_finite:
  assumes "x \<in> set (shown oem cands)"
  shows "\<exists>r. alt_score x = Fin r \<and> 65 \<le> r"
proof -
  from shown_origin [OF assms] obtain t
    where t: "alt_score x = score (scoreAlternative oem t)" "n_ge (alt_score x) minScoreShown"
    by blast
  from score_range [of oem t] t show ?thesis
    by (auto simp add: n_ge_def minScoreShown_def)
qed

lemma truncate_fields:
  "alt_size (Alt.truncate x) = alt_size x" "alt_score (Alt.truncate x) = alt_score x"
  "alt_reasons (Alt.truncate x) = alt_reasons x" "alt_links (Alt.truncate x) = alt_links x"
  by (simp_all add: Alt.truncate_def)

lemma sort_key_const_on: "\<forall>y \<in> set ys. f y = c \<Longrightarrow> sort_key f ys = ys"
proof (induction ys)
  case Nil
  then show ?case by simp
next
  case (Cons y ys)
  then have "sort_key f ys = ys" by simp
  then have "sort_key f (y # ys) = insort_key f y ys" by simp
  also have "\<dots> = y # ys" using Cons.prems by (cases ys) simp_all
  finally show ?case .
qed

lemma sort_key_stable_on:
  assumes "\<And>x y. P x \<Longrightarrow> P y \<Longrightarrow> f x = f y"
  shows "filter P (sort_key f xs) = filter P xs"
proof -
  have "filter P (sort_key f xs) = sort_key f (filter P xs)" by (rule filter_sort)
  also have "\<dots> = filter P xs"
  proof (cases "filter P xs")
    case Nil
    then show ?thesis by simp
  next
    case (Cons z zs)
    then have "z \<in> set (filter P xs)" by simp
    then have z: "P z" by simp
    have "\<forall>y \<in> set (filter P xs). f y = f z"
    proof
      fix y assume "y \<in> set (filter P xs)"
      then have "P y" by simp
      from assms [OF this z] show "f y = f z" .
    qed
    then show ?thesis by (rule sort_key_const_on)
  qed
  finally show ?thesis .
qed

lemma sorted_shown:
  "sort_by (\<lambda>a b. n_sub (alt_score b) (alt_score a)) (shown oem cands)
     = sort_key (\<lambda>a. - fin_val (alt_score a)) (shown oem cands)"
proof (rule sort_by_sort_key [where sc = alt_score and xs = "shown oem cands"])
  show "\<forall>y \<in> set (shown oem cands). \<exists>r. alt_score y = Fin r"
    using shown_finite by blast
qed

lemma parse_OEM_TYRE:
  "parseTyreSize OEM_TYRE = Some \<lparr>widthMm = Fin 265, aspect = Fin 30, rimIn = Fin 20\<rparr>"
  unfolding OEM_TYRE_def by code_simp

lemma runSearch_demo:
  assumes "toUpperCase (trim (st_vrm st)) = DEMO_VRM"
  shows "runSearch st = st\<lparr>st_error := [], st_oem := Some (DEMO_VRM, OEM_TYRE),
            st_alts := scored \<lparr>widthMm = Fin 265, aspect = Fin 30, rimIn = Fin 20\<rparr>
                         (candidates \<lparr>widthMm = Fin 265, aspect = Fin 30, rimIn = Fin 20\<rparr>)\<rparr>"
  using assms by (simp add: runSearch_def Let_def parse_OEM_TYRE)

lemma runSearch_other:
  assumes "toUpperCase (trim (st_vrm st)) \<noteq> DEMO_VRM"
  shows "st_alts (runSearch st) = []"
  using assms by (simp add: runSearch_def Let_def)

lemma subseq_shown: "subseq (map alt_size (shown oem cands)) (map formatTyreSize cands)"
proof -
  let ?M = "map (\<lambda>t. (t, formatTyreSize t)) cands"
  let ?F = "filter (\<lambda>x. snd x \<noteq> OEM_TYRE) ?M"
  let ?D = "dedup {} ?F"
  let ?mk = "\<lambda>x. let s = scoreAlternative oem (fst x)
                  in \<lparr>alt_size = snd x, alt_score = score s, alt_reasons = reasons s,
                      alt_links = retailerLinksForSize (snd x), alt_safe = safe s\<rparr>"
  have "subseq (shown oem cands) (map ?mk ?D)"
    unfolding shown_def by (rule subseq_filter_left)
  then have s1: "subseq (map alt_size (shown oem cands)) (map alt_size (map ?mk ?D))"
    by (rule subseq_map)
  have e1: "map alt_size (map ?mk ?D) = map snd ?D"
    by (simp add: Let_def)
  have 1: "subseq (map alt_size (shown oem cands)) (map snd ?D)"
    using s1 unfolding e1 .
  have 2: "subseq (map snd ?D) (map snd ?F)" by (rule subseq_dedup)
  have "subseq ?F ?M" by (rule subseq_filter_left)
  then have 3: "subseq (map snd ?F) (map snd ?M)" by (rule subseq_map)
  have 4: "map snd ?M = map formatTyreSize cands" by (simp add: comp_def)
  show ?thesis
    using subseq_order.trans [OF 1 subseq_order.trans [OF 2 3]] unfolding 4 .
qed


text \<open>The demonstration run: what the page computes for the registration it knows.\<close>

lemma demo_vrm: "toUpperCase (trim ''y14 drt'') = DEMO_VRM"
  unfolding DEMO_VRM_def by code_simp

lemma demo_scored:
  "map (\<lambda>a. (alt_size a, alt_score a))
       (scored \<lparr>widthMm = Fin 265, aspect = Fin 30, rimIn = Fin 20\<rparr>
          (candidates \<lparr>widthMm = Fin 265, aspect = Fin 30, rimIn = Fin 20\<rparr>))
   = [(''255/30 R20'', Fin 74), (''275/30 R20'', Fin 74)]"
  by code_simp


subsection \<open>The result list\<close>

text \<open>
  C5. For every OEM size and candidate list, each entry of the result list has a score of
  at least 65 and is the entry of a candidate reported safe; the list is in descending
  order of score; the entries of any one score are, in this order, those that the
  pipeline produced before sorting, and these follow the order of the candidates
  (the sizes before sorting are a subsequence of the candidates' sizes). The function
  is total and gives the empty list for no candidates; the search that calls it sets
  no error in the branch that computes the list, whatever the list is.
\<close>

theorem result_list_filtered_sorted_stable:
  "(\<forall>a \<in> set (scored oem cands).
       n_ge (alt_score a) minScoreShown
       \<and> (\<exists>t \<in> set cands. alt_size a = formatTyreSize t \<and> safe (scoreAlternative oem t)
              \<and> alt_score a = score (scoreAlternative oem t)))
   \<and> sorted_wrt (\<lambda>a b. n_ge (alt_score a) (alt_score b)) (scored oem cands)
   \<and> (\<forall>k. filter (\<lambda>a. alt_score a = k) (scored oem cands)
          = map Alt.truncate (filter (\<lambda>x. alt_score x = k) (shown oem cands)))
   \<and> subseq (map alt_size (shown oem cands)) (map formatTyreSize cands)
   \<and> scored oem [] = []
   \<and> (toUpperCase (trim (st_vrm st)) = DEMO_VRM \<longrightarrow>
        st_error (runSearch st) = []
        \<and> st_alts (runSearch st)
            = scored \<lparr>widthMm = Fin 265, aspect = Fin 30, rimIn = Fin 20\<rparr>
                (candidates \<lparr>widthMm = Fin 265, aspect = Fin 30, rimIn = Fin 20\<rparr>))"
proof -
  let ?f = "\<lambda>a. - fin_val (alt_score a)"
  let ?S = "shown oem cands"
  have sc: "scored oem cands = map Alt.truncate (sort_key ?f ?S)"
    by (simp add: scored_def sorted_shown)
  have a: "\<forall>a \<in> set (scored oem cands).
       n_ge (alt_score a) minScoreShown
       \<and> (\<exists>t \<in> set cands. alt_size a = formatTyreSize t \<and> safe (scoreAlternative oem t)
              \<and> alt_score a = score (scoreAlternative oem t))"
  proof
    fix a assume "a \<in> set (scored oem cands)"
    then obtain x where x: "x \<in> set ?S" "a = Alt.truncate x"
      unfolding sc by auto
    from shown_origin [OF x(1)] show "n_ge (alt_score a) minScoreShown
       \<and> (\<exists>t \<in> set cands. alt_size a = formatTyreSize t \<and> safe (scoreAlternative oem t)
              \<and> alt_score a = score (scoreAlternative oem t))"
      unfolding x(2) truncate_fields by blast
  qed
  have "sorted (map ?f (sort_key ?f ?S))" by (rule sorted_sort_key)
  then have "sorted_wrt (\<lambda>a b. ?f a \<le> ?f b) (sort_key ?f ?S)"
    by (simp add: sorted_map)
  then have "sorted_wrt (\<lambda>a b. n_ge (alt_score a) (alt_score b)) (sort_key ?f ?S)"
  proof (rule sorted_wrt_mono_rel [rotated])
    fix x y assume "x \<in> set (sort_key ?f ?S)" "y \<in> set (sort_key ?f ?S)" "?f x \<le> ?f y"
    moreover from this obtain rx ry where "alt_score x = Fin rx" "alt_score y = Fin ry"
      using shown_finite [of x oem cands] shown_finite [of y oem cands] by auto
    ultimately show "n_ge (alt_score x) (alt_score y)" by (simp add: n_ge_def)
  qed
  then have b: "sorted_wrt (\<lambda>a b. n_ge (alt_score a) (alt_score b)) (scored oem cands)"
    unfolding sc by (simp add: sorted_wrt_map truncate_fields)
  have c: "\<forall>k. filter (\<lambda>a. alt_score a = k) (scored oem cands)
          = map Alt.truncate (filter (\<lambda>x. alt_score x = k) ?S)"
  proof
    fix k
    have "filter (\<lambda>x. alt_score x = k) (sort_key ?f ?S) = filter (\<lambda>x. alt_score x = k) ?S"
      by (rule sort_key_stable_on) simp
    then show "filter (\<lambda>a. alt_score a = k) (scored oem cands)
          = map Alt.truncate (filter (\<lambda>x. alt_score x = k) ?S)"
      unfolding sc by (simp add: filter_map comp_def truncate_fields)
  qed
  have e: "scored oem [] = []"
    by (simp add: scored_def shown_def sort_by_def)
  have r: "toUpperCase (trim (st_vrm st)) = DEMO_VRM \<longrightarrow>
        st_error (runSearch st) = []
        \<and> st_alts (runSearch st)
            = scored \<lparr>widthMm = Fin 265, aspect = Fin 30, rimIn = Fin 20\<rparr>
                (candidates \<lparr>widthMm = Fin 265, aspect = Fin 30, rimIn = Fin 20\<rparr>)"
    by (simp add: runSearch_demo)
  show ?thesis by (intro conjI a b c subseq_shown e r)
qed

text \<open>
  The demonstration run: two entries of score 74, 255/30 R20 before 275/30 R20 as among
  the candidates, and no error.
\<close>

theorem result_list_filtered_sorted_stable_witness:
  "toUpperCase (trim ''y14 drt'') = DEMO_VRM
   \<and> st_error (runSearch \<lparr>st_vrm = ''y14 drt'', st_error = ''old'', st_oem = None, st_alts = []\<rparr>)
       = []
   \<and> map (\<lambda>a. (alt_size a, alt_score a))
        (st_alts (runSearch \<lparr>st_vrm = ''y14 drt'', st_error = ''old'', st_oem = None,
                              st_alts = []\<rparr>))
       = [(''255/30 R20'', Fin 74), (''275/30 R20'', Fin 74)]
   \<and> sorted_wrt (\<lambda>a b. n_ge (alt_score a) (alt_score b))
        (st_alts (runSearch \<lparr>st_vrm = ''y14 drt'', st_error = ''old'', st_oem = None,
                              st_alts = []\<rparr>))
   \<and> n_ge (Fin 74) minScoreShown"
proof -
  let ?O = "\<lparr>widthMm = Fin 265, aspect = Fin 30, rimIn = Fin 20\<rparr>"
  let ?st = "\<lparr>st_vrm = ''y14 drt'', st_error = ''old'', st_oem = None, st_alts = []\<rparr>"
  note T = result_list_filtered_sorted_stable [of ?O "candidates ?O" ?st]
  have v: "toUpperCase (trim (st_vrm ?st)) = DEMO_VRM" by (simp add: demo_vrm)
  from T v have r: "st_error (runSearch ?st) = []"
    "st_alts (runSearch ?st) = scored ?O (candidates ?O)"
    by blast+
  from T have s: "sorted_wrt (\<lambda>a b. n_ge (alt_score a) (alt_score b)) (scored ?O (candidates ?O))"
    by blast
  have m: "n_ge (Fin 74) minScoreShown" by (simp add: n_ge_def minScoreShown_def)
  show ?thesis
    unfolding r using demo_vrm demo_scored s m by blast
qed


subsection \<open>The limits on what is shown\<close>

lemma NaN_right: "n_add a NaN = NaN" "n_mul a NaN = NaN" "n_div a NaN = NaN"
  by (cases a; simp)+

lemma clamp_NaN: "clamp NaN lo hi = NaN"
  by (simp add: clamp_def Math_min_def Math_max_def)

lemma score_NaN:
  assumes "safe (scoreAlternative oem alt)"
    and "pctDiff (overallDiameterMm oem) (overallDiameterMm alt) = NaN
         \<or> Math_abs (n_sub (widthMm alt) (widthMm oem)) = NaN"
  shows "score (scoreAlternative oem alt) = NaN"
proof -
  note g = safe_gates [OF assms(1)]
  from assms(2) show ?thesis
  proof
    assume d: "pctDiff (overallDiameterMm oem) (overallDiameterMm alt) = NaN"
    show ?thesis
      using g unfolding gates_score [OF g [THEN conjunct1] g [THEN conjunct2, THEN conjunct1]
          g [THEN conjunct2, THEN conjunct2]] d
      by (simp add: clamp_NaN n_sub_def NaN_right)
  next
    assume w: "Math_abs (n_sub (widthMm alt) (widthMm oem)) = NaN"
    show ?thesis
      using g unfolding gates_score [OF g [THEN conjunct1] g [THEN conjunct2, THEN conjunct1]
          g [THEN conjunct2, THEN conjunct2]] w
      by (simp add: clamp_NaN n_sub_def NaN_right)
  qed
qed

lemma shown_within_limits:
  assumes "safe (scoreAlternative oem t)" and "n_ge (score (scoreAlternative oem t)) minScoreShown"
  shows "rimIn t = rimIn oem
     \<and> n_ge diameterPctMax (pctDiff (overallDiameterMm oem) (overallDiameterMm t))
     \<and> n_ge widthDeltaMaxMm (Math_abs (n_sub (widthMm t) (widthMm oem)))"
proof -
  note g = safe_gates [OF assms(1)]
  have nn: "score (scoreAlternative oem t) \<noteq> NaN"
    using assms(2) by (auto simp add: n_ge_def)
  with score_NaN [OF assms(1)]
  have d: "pctDiff (overallDiameterMm oem) (overallDiameterMm t) \<noteq> NaN"
    and w: "Math_abs (n_sub (widthMm t) (widthMm oem)) \<noteq> NaN"
    by blast+
  show ?thesis
    using g d w by (simp add: n_ge_def n_gt_def n_sne_def diameterPctMax_def widthDeltaMaxMm_def)
qed

lemma candidates_rim: "t \<in> set (candidates oem) \<Longrightarrow> rimIn t = rimIn oem"
  by (auto simp add: candidates_def)


text \<open>
  C10. Every entry of the result list is the entry of a candidate that has the OEM's rim
  diameter, a diameter delta of at most 3 percent and a width delta of at most 25 mm:
  for every OEM size and candidate list, and so for the list the search stores. The
  candidates the search generates all have the OEM's rim.
\<close>

theorem results_within_limits:
  "(\<forall>x \<in> set (scored oem cands).
      \<exists>t \<in> set cands. alt_size x = formatTyreSize t
        \<and> rimIn t = rimIn oem
        \<and> n_ge diameterPctMax (pctDiff (overallDiameterMm oem) (overallDiameterMm t))
        \<and> n_ge widthDeltaMaxMm (Math_abs (n_sub (widthMm t) (widthMm oem))))
   \<and> (\<forall>t \<in> set (candidates oem). rimIn t = rimIn oem)
   \<and> (\<forall>x \<in> set (st_alts (runSearch st)).
      \<exists>t \<in> set (candidates \<lparr>widthMm = Fin 265, aspect = Fin 30, rimIn = Fin 20\<rparr>).
        alt_size x = formatTyreSize t
        \<and> rimIn t = Fin 20
        \<and> n_ge diameterPctMax
            (pctDiff (overallDiameterMm \<lparr>widthMm = Fin 265, aspect = Fin 30, rimIn = Fin 20\<rparr>)
               (overallDiameterMm t))
        \<and> n_ge widthDeltaMaxMm (Math_abs (n_sub (widthMm t) (Fin 265))))"
proof -
  have gen: "\<exists>t \<in> set cands. alt_size x = formatTyreSize t
        \<and> rimIn t = rimIn oem
        \<and> n_ge diameterPctMax (pctDiff (overallDiameterMm oem) (overallDiameterMm t))
        \<and> n_ge widthDeltaMaxMm (Math_abs (n_sub (widthMm t) (widthMm oem)))"
    if "x \<in> set (scored oem cands)" for x oem cands
  proof -
    from that obtain y where y: "y \<in> set (shown oem cands)" "x = Alt.truncate y"
      by (auto simp add: scored_def sorted_shown)
    from shown_origin [OF y(1)] obtain t where t: "t \<in> set cands"
      "alt_size y = formatTyreSize t" "alt_score y = score (scoreAlternative oem t)"
      "safe (scoreAlternative oem t)" "n_ge (alt_score y) minScoreShown"
      by blast
    from shown_within_limits [OF t(4)] t(3,5)
    have "rimIn t = rimIn oem
     \<and> n_ge diameterPctMax (pctDiff (overallDiameterMm oem) (overallDiameterMm t))
     \<and> n_ge widthDeltaMaxMm (Math_abs (n_sub (widthMm t) (widthMm oem)))"
      by simp
    with t(1,2) show ?thesis
      unfolding y(2) truncate_fields by blast
  qed
  have run: "\<exists>t \<in> set (candidates \<lparr>widthMm = Fin 265, aspect = Fin 30, rimIn = Fin 20\<rparr>).
        alt_size x = formatTyreSize t
        \<and> rimIn t = Fin 20
        \<and> n_ge diameterPctMax
            (pctDiff (overallDiameterMm \<lparr>widthMm = Fin 265, aspect = Fin 30, rimIn = Fin 20\<rparr>)
               (overallDiameterMm t))
        \<and> n_ge widthDeltaMaxMm (Math_abs (n_sub (widthMm t) (Fin 265)))"
    if x: "x \<in> set (st_alts (runSearch st))" for x
  proof (cases "toUpperCase (trim (st_vrm st)) = DEMO_VRM")
    case True
    from x have "x \<in> set (scored \<lparr>widthMm = Fin 265, aspect = Fin 30, rimIn = Fin 20\<rparr>
                  (candidates \<lparr>widthMm = Fin 265, aspect = Fin 30, rimIn = Fin 20\<rparr>))"
      by (simp add: runSearch_demo [OF True])
    from gen [OF this] show ?thesis by simp
  next
    case False
    with x show ?thesis by (simp add: runSearch_other)
  qed
  show ?thesis
    using gen run candidates_rim by blast
qed

theorem results_within_limits_witness:
  "alt_size (hd (st_alts (runSearch \<lparr>st_vrm = ''y14 drt'', st_error = ''old'', st_oem = None,
                                     st_alts = []\<rparr>))) = ''255/30 R20''
   \<and> (\<exists>t \<in> set (candidates \<lparr>widthMm = Fin 265, aspect = Fin 30, rimIn = Fin 20\<rparr>).
        formatTyreSize t = ''255/30 R20''
        \<and> rimIn t = Fin 20
        \<and> n_ge diameterPctMax
            (pctDiff (overallDiameterMm \<lparr>widthMm = Fin 265, aspect = Fin 30, rimIn = Fin 20\<rparr>)
               (overallDiameterMm t))
        \<and> n_ge widthDeltaMaxMm (Math_abs (n_sub (widthMm t) (Fin 265))))"
proof -
  let ?O = "\<lparr>widthMm = Fin 265, aspect = Fin 30, rimIn = Fin 20\<rparr>"
  let ?st = "\<lparr>st_vrm = ''y14 drt'', st_error = ''old'', st_oem = None, st_alts = []\<rparr>"
  have v: "toUpperCase (trim (st_vrm ?st)) = DEMO_VRM" by (simp add: demo_vrm)
  have a: "st_alts (runSearch ?st) = scored ?O (candidates ?O)"
    by (simp add: runSearch_demo [OF v])
  from demo_scored have ne: "scored ?O (candidates ?O) \<noteq> []" by auto
  then have h: "hd (scored ?O (candidates ?O)) \<in> set (st_alts (runSearch ?st))"
    unfolding a by simp
  have "(alt_size (hd (scored ?O (candidates ?O))), alt_score (hd (scored ?O (candidates ?O))))
          = hd (map (\<lambda>a. (alt_size a, alt_score a)) (scored ?O (candidates ?O)))"
    using ne by (simp add: hd_map)
  then have sz: "alt_size (hd (scored ?O (candidates ?O))) = ''255/30 R20''"
    unfolding demo_scored by simp
  from results_within_limits [of ?O "candidates ?O" ?st] h
  have "\<exists>t \<in> set (candidates ?O).
        alt_size (hd (scored ?O (candidates ?O))) = formatTyreSize t
        \<and> rimIn t = Fin 20
        \<and> n_ge diameterPctMax (pctDiff (overallDiameterMm ?O) (overallDiameterMm t))
        \<and> n_ge widthDeltaMaxMm (Math_abs (n_sub (widthMm t) (Fin 265)))"
    by blast
  then show ?thesis
    unfolding a sz by metis
qed

end
